theory Spec2Isabelle
  imports Complex_Main
begin

section \<open>Strain rosette calculator: the numeric core of \<open>strain_rosette_web_ver3.py\<close>\<close>

text \<open>
  The script computes the in-plane strain state from three gauge readings
  (\<open>calculate_strains\<close>) and the Mohr's circle quantities derived from it
  (\<open>plot_mohrs_circle\<close>).

  Numbers: the script computes with IEEE double precision floats.  This development
  reads every float as a real number and every numpy primitive as the mathematical
  function it approximates (\<open>np.sin\<close> as \<open>sin\<close>, \<open>np.sqrt\<close> as \<open>sqrt\<close>, ...).
  The theorems about these definitions are statements about the exact-arithmetic reading
  of the code.  Where rounding changes what the script does, and not only the last digits
  of a result, the lines concerned are read a second time in double precision (the
  definitions whose names end in \<open>double\<close>).
\<close>

subsection \<open>numpy primitives\<close>

text \<open>\<open>np.radians(x)\<close> is \<open>x * (pi / 180)\<close> and \<open>np.degrees(x)\<close> is \<open>x * (180 / pi)\<close>.\<close>

definition radians :: "real \<Rightarrow> real" where
  "radians d = d * (pi / 180)"

definition degrees :: "real \<Rightarrow> real" where
  "degrees r = r * (180 / pi)"

text \<open>
  \<open>np.arctan2(y, x)\<close>: the angle of the point \<open>(x, y)\<close>, in \<open>(-pi, pi]\<close>, with the
  library's value \<open>0\<close> at the origin (for the positive zeros that real inputs give).
\<close>

definition arctan2 :: "real \<Rightarrow> real \<Rightarrow> real" where
  "arctan2 y x =
     (if 0 < x then arctan (y / x)
      else if x < 0 then (if 0 \<le> y then arctan (y / x) + pi else arctan (y / x) - pi)
      else if 0 < y then pi / 2
      else if y < 0 then - (pi / 2)
      else 0)"

subsection \<open>\<open>np.linalg.solve\<close> on a 3x3 system\<close>

text \<open>
  \<open>np.linalg.solve(A, B)\<close> calls LAPACK's \<open>gesv\<close>: an LU factorisation with partial
  pivoting (in each column the row with the entry of largest magnitude, the first such
  row on a tie, is swapped into the pivot position), followed by forward and back
  substitution.  When a pivot is exactly zero, \<open>gesv\<close> reports the matrix as singular and
  numpy raises \<open>LinAlgError\<close>.  The model runs the elimination on the three rows extended
  by their right-hand sides.
\<close>

datatype error = LinAlgError

type_synonym vec3 = "real \<times> real \<times> real"
type_synonym mat3 = "vec3 \<times> vec3 \<times> vec3"

text \<open>An equation \<open>a * x + b * y + c * z = d\<close>: a row of the matrix with its right-hand side.\<close>

type_synonym eqn = "real \<times> real \<times> real \<times> real"

fun co1 :: "eqn \<Rightarrow> real" where "co1 (a, b, c, d) = a"
fun co2 :: "eqn \<Rightarrow> real" where "co2 (a, b, c, d) = b"
fun co3 :: "eqn \<Rightarrow> real" where "co3 (a, b, c, d) = c"
fun rhs :: "eqn \<Rightarrow> real" where "rhs (a, b, c, d) = d"

fun augment :: "vec3 \<Rightarrow> real \<Rightarrow> eqn" where
  "augment (a, b, c) d = (a, b, c, d)"

text \<open>\<open>row_sub m p r\<close> is the row \<open>r - m * p\<close>.\<close>

fun row_sub :: "real \<Rightarrow> eqn \<Rightarrow> eqn \<Rightarrow> eqn" where
  "row_sub m (a, b, c, d) (a', b', c', d') = (a' - m * a, b' - m * b, c' - m * c, d' - m * d)"

text \<open>Pivot search in the first column among three rows, and the row interchange.\<close>

definition pivot3 :: "eqn \<Rightarrow> eqn \<Rightarrow> eqn \<Rightarrow> eqn \<times> eqn \<times> eqn" where
  "pivot3 r1 r2 r3 =
     (if \<bar>co1 r1\<bar> < \<bar>co1 r2\<bar>
      then (if \<bar>co1 r2\<bar> < \<bar>co1 r3\<bar> then (r3, r2, r1) else (r2, r1, r3))
      else (if \<bar>co1 r1\<bar> < \<bar>co1 r3\<bar> then (r3, r2, r1) else (r1, r2, r3)))"

text \<open>Pivot search in the second column among the two remaining rows.\<close>

definition pivot2 :: "eqn \<Rightarrow> eqn \<Rightarrow> eqn \<times> eqn" where
  "pivot2 r2 r3 = (if \<bar>co2 r2\<bar> < \<bar>co2 r3\<bar> then (r3, r2) else (r2, r3))"

text \<open>Back substitution on an upper triangular system with non-zero diagonal.\<close>

definition back_subst :: "eqn \<Rightarrow> eqn \<Rightarrow> eqn \<Rightarrow> vec3" where
  "back_subst p u v =
     (let z = rhs v / co3 v;
          y = (rhs u - co3 u * z) / co2 u;
          x = (rhs p - co2 p * y - co3 p * z) / co1 p
      in (x, y, z))"

definition gesv :: "eqn \<Rightarrow> eqn \<Rightarrow> eqn \<Rightarrow> error + vec3" where
  "gesv r1 r2 r3 =
     (case pivot3 r1 r2 r3 of (p, q, s) \<Rightarrow>
        if co1 p = 0 then Inl LinAlgError
        else
          (case pivot2 (row_sub (co1 q / co1 p) p q) (row_sub (co1 s / co1 p) p s) of (u, w) \<Rightarrow>
             if co2 u = 0 then Inl LinAlgError
             else
               (let v = row_sub (co2 w / co2 u) u w
                in if co3 v = 0 then Inl LinAlgError
                   else Inr (back_subst p u v))))"

fun linalg_solve :: "mat3 \<Rightarrow> vec3 \<Rightarrow> error + vec3" where
  "linalg_solve (ra, rb, rc) (ba, bb, bc) = gesv (augment ra ba) (augment rb bb) (augment rc bc)"

subsection \<open>\<open>calculate_strains\<close>\<close>

text \<open>The row of the coefficient matrix for a gauge at \<open>theta\<close> radians.\<close>

definition coeff_row :: "real \<Rightarrow> vec3" where
  "coeff_row theta = ((cos theta)\<^sup>2, (sin theta)\<^sup>2, sin theta * cos theta)"

definition coeff_matrix :: "real \<Rightarrow> real \<Rightarrow> real \<Rightarrow> mat3" where
  "coeff_matrix theta_a theta_b theta_c =
     (coeff_row (radians theta_a), coeff_row (radians theta_b), coeff_row (radians theta_c))"

definition calculate_strains ::
  "real \<Rightarrow> real \<Rightarrow> real \<Rightarrow> real \<Rightarrow> real \<Rightarrow> real \<Rightarrow> error + vec3" where
  "calculate_strains theta_a theta_b theta_c eps_a eps_b eps_c =
     linalg_solve (coeff_matrix theta_a theta_b theta_c) (eps_a, eps_b, eps_c)"

subsection \<open>\<open>plot_mohrs_circle\<close>\<close>

text \<open>The local variables of the function, in the order the code computes them.\<close>

definition center :: "real \<Rightarrow> real \<Rightarrow> real" where
  "center eps_x eps_y = (eps_x + eps_y) / 2"

definition radius :: "real \<Rightarrow> real \<Rightarrow> real \<Rightarrow> real" where
  "radius eps_x eps_y gamma_xy = sqrt (((eps_x - eps_y) / 2)\<^sup>2 + (gamma_xy / 2)\<^sup>2)"

definition eps1 :: "real \<Rightarrow> real \<Rightarrow> real \<Rightarrow> real" where
  "eps1 eps_x eps_y gamma_xy = center eps_x eps_y + radius eps_x eps_y gamma_xy"

definition eps2 :: "real \<Rightarrow> real \<Rightarrow> real \<Rightarrow> real" where
  "eps2 eps_x eps_y gamma_xy = center eps_x eps_y - radius eps_x eps_y gamma_xy"

definition theta_p_rad :: "real \<Rightarrow> real \<Rightarrow> real \<Rightarrow> real" where
  "theta_p_rad eps_x eps_y gamma_xy = 0.5 * arctan2 gamma_xy (eps_x - eps_y)"

definition theta_p_deg :: "real \<Rightarrow> real \<Rightarrow> real \<Rightarrow> real" where
  "theta_p_deg eps_x eps_y gamma_xy = degrees (theta_p_rad eps_x eps_y gamma_xy)"

text \<open>
  What the function draws on the axes: the circle, the dashed segment through the two
  strain points, the three markers, the view limits and the inverted vertical axis.
\<close>

type_synonym point = "real \<times> real"

record figure =
  circle_center :: point
  circle_radius :: real
  segment :: "point \<times> point"
  center_marker :: point
  eps1_marker :: point
  eps2_marker :: point
  xlim :: "real \<times> real"
  ylim :: "real \<times> real"
  y_inverted :: bool

definition draw :: "real \<Rightarrow> real \<Rightarrow> real \<Rightarrow> figure" where
  "draw eps_x eps_y gamma_xy =
     (let c = center eps_x eps_y; r = radius eps_x eps_y gamma_xy
      in \<lparr> circle_center = (c, 0),
           circle_radius = r,
           segment = ((eps_x, - gamma_xy / 2), (eps_y, gamma_xy / 2)),
           center_marker = (c, 0),
           eps1_marker = (eps1 eps_x eps_y gamma_xy, 0),
           eps2_marker = (eps2 eps_x eps_y gamma_xy, 0),
           xlim = (c - r * 1.2, c + r * 1.2),
           ylim = (- r * 1.2, r * 1.2),
           y_inverted = True \<rparr>)"

text \<open>The function shows the figure and returns \<open>eps1, eps2, theta_p_deg\<close>.\<close>

definition plot_mohrs_circle :: "real \<Rightarrow> real \<Rightarrow> real \<Rightarrow> figure \<times> real \<times> real \<times> real" where
  "plot_mohrs_circle eps_x eps_y gamma_xy =
     (draw eps_x eps_y gamma_xy,
      eps1 eps_x eps_y gamma_xy, eps2 eps_x eps_y gamma_xy, theta_p_deg eps_x eps_y gamma_xy)"

subsection \<open>The same lines in double precision\<close>

text \<open>
  Where rounding decides what the script does, the lines are read once more with their
  rounding written out.  A double is a real number with a 53-bit significand; \<open>fl\<close>
  rounds a real number to the nearest double, ties to the even significand.  The
  exponent range is taken as unbounded, so overflow and underflow are not modelled, nor
  are signed zeros and NaN.
\<close>

definition round_even :: "real \<Rightarrow> int" where
  "round_even q =
     (let f = \<lfloor>q\<rfloor>; d = q - of_int f
      in if d < 1 / 2 then f else if 1 / 2 < d then f + 1 else if even f then f else f + 1)"

definition fl :: "real \<Rightarrow> real" where
  "fl x =
     (if x = 0 then 0
      else (let e = \<lfloor>log 2 \<bar>x\<bar>\<rfloor> - 52
            in of_int (round_even (x / 2 powi e)) * 2 powi e))"

text \<open>
  \<open>NPY_PI\<close> is numpy's constant for pi, the double \<open>3.141592653589793\<close>.
  \<open>np.radians(x)\<close> is the product \<open>x * (NPY_PI / 180.0)\<close> and \<open>np.degrees(x)\<close> the product
  \<open>x * (180.0 / NPY_PI)\<close>, with each operation rounded.
\<close>

definition NPY_PI :: real where
  "NPY_PI = 884279719003555 / 2 ^ 48"


definition np_degrees :: "real \<Rightarrow> real" where
  "np_degrees x = fl (x * fl (180 / NPY_PI))"



definition np_arctan2 :: "real \<Rightarrow> real \<Rightarrow> real" where
  "np_arctan2 y x = fl (arctan2 y x)"




text \<open>Lines 45 and 46: the principal angle in double precision.\<close>

definition theta_p_rad_double :: "real \<Rightarrow> real \<Rightarrow> real \<Rightarrow> real" where
  "theta_p_rad_double eps_x eps_y gamma_xy = fl (0.5 * np_arctan2 gamma_xy (fl (eps_x - eps_y)))"

definition theta_p_deg_double :: "real \<Rightarrow> real \<Rightarrow> real \<Rightarrow> real" where
  "theta_p_deg_double eps_x eps_y gamma_xy = np_degrees (theta_p_rad_double eps_x eps_y gamma_xy)"

subsection \<open>Notions the specification uses\<close>

text \<open>The strain-transformation formula: the normal strain along direction \<open>theta\<close> (radians).\<close>

definition strain_at :: "vec3 \<Rightarrow> real \<Rightarrow> real" where
  "strain_at s theta =
     (case s of (eps_x, eps_y, gamma_xy) \<Rightarrow>
        eps_x * (cos theta)\<^sup>2 + eps_y * (sin theta)\<^sup>2 + gamma_xy * sin theta * cos theta)"

text \<open>The determinant of a 3x3 matrix; the matrix is singular when it is zero.\<close>

fun det3 :: "mat3 \<Rightarrow> real" where
  "det3 ((a1, b1, c1), (a2, b2, c2), (a3, b3, c3)) =
     a1 * (b2 * c3 - c2 * b3) - b1 * (a2 * c3 - c2 * a3) + c1 * (a2 * b3 - b2 * a3)"

definition singular :: "mat3 \<Rightarrow> bool" where
  "singular A = (det3 A = 0)"

text \<open>The Euclidean distance between two points of the plot.\<close>

fun dist2 :: "point \<Rightarrow> point \<Rightarrow> real" where
  "dist2 (x1, y1) (x2, y2) = sqrt ((x1 - x2)\<^sup>2 + (y1 - y2)\<^sup>2)"

text \<open>A vector satisfies an equation; the coefficient part of an equation.\<close>

fun sat :: "vec3 \<Rightarrow> eqn \<Rightarrow> bool" where
  "sat (x, y, z) (a, b, c, d) \<longleftrightarrow> a * x + b * y + c * z = d"

fun coeffs :: "eqn \<Rightarrow> vec3" where "coeffs (a, b, c, d) = (a, b, c)"

definition det_eqns :: "eqn \<Rightarrow> eqn \<Rightarrow> eqn \<Rightarrow> real" where
  "det_eqns r1 r2 r3 = det3 (coeffs r1, coeffs r2, coeffs r3)"


section \<open>The elimination solves the system exactly when the matrix is regular\<close>

subsection \<open>Row operations, solutions and the determinant\<close>

lemma sat_row_sub: "sat x p \<Longrightarrow> sat x (row_sub m p r) \<longleftrightarrow> sat x r"
  by (cases x; cases p; cases r) (auto simp: algebra_simps)

lemma det_row_sub2: "det_eqns p (row_sub m p q) s = det_eqns p q s"
  by (cases p; cases q; cases s) (simp add: det_eqns_def algebra_simps)

lemma det_row_sub3: "det_eqns p q (row_sub m p s) = det_eqns p q s"
  by (cases p; cases q; cases s) (simp add: det_eqns_def algebra_simps)

lemma det_row_sub23: "det_eqns p q (row_sub m q s) = det_eqns p q s"
  by (cases p; cases q; cases s) (simp add: det_eqns_def algebra_simps)

lemma det_swap12: "det_eqns q p s = - det_eqns p q s"
  by (cases p; cases q; cases s) (simp add: det_eqns_def algebra_simps)

lemma det_swap13: "det_eqns s q p = - det_eqns p q s"
  by (cases p; cases q; cases s) (simp add: det_eqns_def algebra_simps)

lemma det_swap23: "det_eqns p s q = - det_eqns p q s"
  by (cases p; cases q; cases s) (simp add: det_eqns_def algebra_simps)

lemma det_triangular:
  "co1 u = 0 \<Longrightarrow> co1 v = 0 \<Longrightarrow> co2 v = 0 \<Longrightarrow> det_eqns p u v = co1 p * co2 u * co3 v"
  by (cases p; cases u; cases v) (simp add: det_eqns_def algebra_simps)

lemma det_col1_zero:
  "co1 p = 0 \<Longrightarrow> co1 q = 0 \<Longrightarrow> co1 s = 0 \<Longrightarrow> det_eqns p q s = 0"
  by (cases p; cases q; cases s) (simp add: det_eqns_def algebra_simps)

lemma det_col2_zero:
  "co1 u = 0 \<Longrightarrow> co1 w = 0 \<Longrightarrow> co2 u = 0 \<Longrightarrow> co2 w = 0 \<Longrightarrow> det_eqns p u w = 0"
  by (cases p; cases u; cases w) (simp add: det_eqns_def algebra_simps)

lemma co1_row_sub: "co1 p \<noteq> 0 \<Longrightarrow> co1 (row_sub (co1 r / co1 p) p r) = 0"
  by (cases p; cases r) simp

lemma co1_row_sub_0: "co1 u = 0 \<Longrightarrow> co1 w = 0 \<Longrightarrow> co1 (row_sub m u w) = 0"
  by (cases u; cases w) simp

lemma co2_row_sub: "co2 u \<noteq> 0 \<Longrightarrow> co2 (row_sub (co2 w / co2 u) u w) = 0"
  by (cases u; cases w) simp

lemma pivot3_cases:
  "pivot3 r1 r2 r3 = (r1, r2, r3) \<or> pivot3 r1 r2 r3 = (r2, r1, r3)
     \<or> pivot3 r1 r2 r3 = (r3, r2, r1)"
  by (simp add: pivot3_def)

lemma pivot3_max:
  "pivot3 r1 r2 r3 = (p, q, s) \<Longrightarrow> \<bar>co1 q\<bar> \<le> \<bar>co1 p\<bar> \<and> \<bar>co1 s\<bar> \<le> \<bar>co1 p\<bar>"
  by (auto simp: pivot3_def split: if_splits)

lemma pivot3_det:
  "pivot3 r1 r2 r3 = (p, q, s) \<Longrightarrow> det_eqns r1 r2 r3 = 0 \<longleftrightarrow> det_eqns p q s = 0"
  using pivot3_cases [of r1 r2 r3] det_swap12 [of r1 r2 r3] det_swap13 [of r1 r2 r3] by auto

lemma pivot3_sat:
  "pivot3 r1 r2 r3 = (p, q, s) \<Longrightarrow>
     sat x r1 \<and> sat x r2 \<and> sat x r3 \<longleftrightarrow> sat x p \<and> sat x q \<and> sat x s"
  using pivot3_cases [of r1 r2 r3] by auto

lemma pivot2_cases:
  "pivot2 r2 r3 = (r2, r3) \<or> pivot2 r2 r3 = (r3, r2)"
  by (simp add: pivot2_def)

lemma pivot2_max: "pivot2 r2 r3 = (u, w) \<Longrightarrow> \<bar>co2 w\<bar> \<le> \<bar>co2 u\<bar>"
  by (auto simp: pivot2_def split: if_splits)

lemma pivot2_det:
  "pivot2 r2 r3 = (u, w) \<Longrightarrow> det_eqns p r2 r3 = 0 \<longleftrightarrow> det_eqns p u w = 0"
  using pivot2_cases [of r2 r3] det_swap23 [of p r2 r3] by auto

lemma pivot2_sat:
  "pivot2 r2 r3 = (u, w) \<Longrightarrow> sat x r2 \<and> sat x r3 \<longleftrightarrow> sat x u \<and> sat x w"
  using pivot2_cases [of r2 r3] by auto

lemma pivot2_co1:
  "pivot2 r2 r3 = (u, w) \<Longrightarrow> co1 r2 = 0 \<Longrightarrow> co1 r3 = 0 \<Longrightarrow> co1 u = 0 \<and> co1 w = 0"
  using pivot2_cases [of r2 r3] by auto

lemma back_subst_sat:
  assumes "co1 p \<noteq> 0" "co2 u \<noteq> 0" "co3 v \<noteq> 0" "co1 u = 0" "co1 v = 0" "co2 v = 0"
  shows "sat (back_subst p u v) p \<and> sat (back_subst p u v) u \<and> sat (back_subst p u v) v"
  using assms by (cases p; cases u; cases v) (simp add: back_subst_def Let_def field_simps)

subsection \<open>The three stages of \<open>gesv\<close>\<close>

lemma gesv_unfold:
  assumes piv: "pivot3 r1 r2 r3 = (p, q, s)"
    and piv2: "pivot2 (row_sub (co1 q / co1 p) p q) (row_sub (co1 s / co1 p) p s) = (u, w)"
  shows "gesv r1 r2 r3 =
    (if co1 p = 0 \<or> co2 u = 0 \<or> co3 (row_sub (co2 w / co2 u) u w) = 0 then Inl LinAlgError
     else Inr (back_subst p u (row_sub (co2 w / co2 u) u w)))"
  by (simp add: gesv_def piv piv2 Let_def)

lemma gesv_stages:
  assumes piv: "pivot3 r1 r2 r3 = (p, q, s)"
    and piv2: "pivot2 (row_sub (co1 q / co1 p) p q) (row_sub (co1 s / co1 p) p s) = (u, w)"
    and nz1: "co1 p \<noteq> 0" and nz2: "co2 u \<noteq> 0"
  shows "co1 u = 0" "co1 (row_sub (co2 w / co2 u) u w) = 0" "co2 (row_sub (co2 w / co2 u) u w) = 0"
    "det_eqns r1 r2 r3 = 0 \<longleftrightarrow> co3 (row_sub (co2 w / co2 u) u w) = 0"
    "sat x r1 \<and> sat x r2 \<and> sat x r3 \<longleftrightarrow>
       sat x p \<and> sat x u \<and> sat x (row_sub (co2 w / co2 u) u w)"
proof -
  let ?q = "row_sub (co1 q / co1 p) p q" and ?s = "row_sub (co1 s / co1 p) p s"
  let ?v = "row_sub (co2 w / co2 u) u w"
  have z: "co1 ?q = 0" "co1 ?s = 0" using nz1 by (simp_all add: co1_row_sub)
  with piv2 have uw: "co1 u = 0" "co1 w = 0" using pivot2_co1 by blast+
  show "co1 u = 0" by fact
  show v1: "co1 ?v = 0" using uw by (rule co1_row_sub_0)
  show v2: "co2 ?v = 0" using nz2 by (rule co2_row_sub)
  have "det_eqns r1 r2 r3 = 0 \<longleftrightarrow> det_eqns p q s = 0" using piv by (rule pivot3_det)
  also have "det_eqns p q s = det_eqns p ?q ?s" by (simp add: det_row_sub2 det_row_sub3)
  also have "det_eqns p ?q ?s = 0 \<longleftrightarrow> det_eqns p u w = 0" using piv2 by (rule pivot2_det)
  also have "det_eqns p u w = det_eqns p u ?v" by (simp add: det_row_sub23)
  also have "\<dots> = co1 p * co2 u * co3 ?v" using uw(1) v1 v2 by (rule det_triangular)
  finally show "det_eqns r1 r2 r3 = 0 \<longleftrightarrow> co3 ?v = 0" using nz1 nz2 by simp
  have "sat x r1 \<and> sat x r2 \<and> sat x r3 \<longleftrightarrow> sat x p \<and> sat x q \<and> sat x s"
    using piv by (rule pivot3_sat)
  also have "\<dots> \<longleftrightarrow> sat x p \<and> sat x ?q \<and> sat x ?s" using sat_row_sub by blast
  also have "\<dots> \<longleftrightarrow> sat x p \<and> sat x u \<and> sat x w" using pivot2_sat [OF piv2] by blast
  also have "\<dots> \<longleftrightarrow> sat x p \<and> sat x u \<and> sat x ?v" using sat_row_sub by blast
  finally show "sat x r1 \<and> sat x r2 \<and> sat x r3 \<longleftrightarrow> sat x p \<and> sat x u \<and> sat x ?v" .
qed


lemma gesv_regular:
  assumes "det_eqns r1 r2 r3 \<noteq> 0"
  shows "\<exists>x. gesv r1 r2 r3 = Inr x \<and> sat x r1 \<and> sat x r2 \<and> sat x r3"
proof -
  obtain p q s where piv: "pivot3 r1 r2 r3 = (p, q, s)" by (metis prod_cases3)
  obtain u w where
    piv2: "pivot2 (row_sub (co1 q / co1 p) p q) (row_sub (co1 s / co1 p) p s) = (u, w)"
    by (metis surj_pair)
  let ?v = "row_sub (co2 w / co2 u) u w"
  have nz1: "co1 p \<noteq> 0"
  proof
    assume "co1 p = 0"
    with pivot3_max [OF piv] have "co1 p = 0" "co1 q = 0" "co1 s = 0" by simp_all
    then have "det_eqns p q s = 0" by (rule det_col1_zero)
    with pivot3_det [OF piv] assms show False by simp
  qed
  let ?q = "row_sub (co1 q / co1 p) p q" and ?s = "row_sub (co1 s / co1 p) p s"
  have z: "co1 ?q = 0" "co1 ?s = 0" using nz1 by (simp_all add: co1_row_sub)
  have nz2: "co2 u \<noteq> 0"
  proof
    assume "co2 u = 0"
    with pivot2_max [OF piv2] have "co2 u = 0" "co2 w = 0" by simp_all
    moreover have "co1 u = 0" "co1 w = 0" using pivot2_co1 [OF piv2 z] by simp_all
    ultimately have "det_eqns p u w = 0" by (simp add: det_col2_zero)
    then have "det_eqns p ?q ?s = 0" using pivot2_det [OF piv2] by simp
    then have "det_eqns p q s = 0" by (simp add: det_row_sub2 det_row_sub3)
    with pivot3_det [OF piv] assms show False by simp
  qed
  have nz3: "co3 ?v \<noteq> 0" using gesv_stages(4) [OF piv piv2 nz1 nz2] assms by simp
  have "gesv r1 r2 r3 = Inr (back_subst p u ?v)"
    using nz1 nz2 nz3 by (simp add: gesv_unfold [OF piv piv2])
  moreover have "sat (back_subst p u ?v) p \<and> sat (back_subst p u ?v) u \<and> sat (back_subst p u ?v) ?v"
    using nz1 nz2 nz3 gesv_stages(1-3) [OF piv piv2 nz1 nz2] by (rule back_subst_sat)
  ultimately show ?thesis using gesv_stages(5) [OF piv piv2 nz1 nz2] by blast
qed

lemma cramer:
  fixes x y z :: real
  assumes "a1 * x + b1 * y + c1 * z = d1" "a2 * x + b2 * y + c2 * z = d2"
    "a3 * x + b3 * y + c3 * z = d3"
  shows "det3 ((a1, b1, c1), (a2, b2, c2), (a3, b3, c3)) * x = det3 ((d1, b1, c1), (d2, b2, c2), (d3, b3, c3))"
    "det3 ((a1, b1, c1), (a2, b2, c2), (a3, b3, c3)) * y = det3 ((a1, d1, c1), (a2, d2, c2), (a3, d3, c3))"
    "det3 ((a1, b1, c1), (a2, b2, c2), (a3, b3, c3)) * z = det3 ((a1, b1, d1), (a2, b2, d2), (a3, b3, d3))"
  unfolding assms [symmetric] by (simp_all add: algebra_simps)

lemma sat_unique:
  assumes det: "det_eqns r1 r2 r3 \<noteq> 0"
    and x: "sat x r1" "sat x r2" "sat x r3" and y: "sat y r1" "sat y r2" "sat y r3"
  shows "x = y"
proof -
  obtain x1 x2 x3 where [simp]: "x = (x1, x2, x3)" by (cases x)
  obtain y1 y2 y3 where [simp]: "y = (y1, y2, y3)" by (cases y)
  obtain a1 b1 c1 d1 where [simp]: "r1 = (a1, b1, c1, d1)" by (cases r1)
  obtain a2 b2 c2 d2 where [simp]: "r2 = (a2, b2, c2, d2)" by (cases r2)
  obtain a3 b3 c3 d3 where [simp]: "r3 = (a3, b3, c3, d3)" by (cases r3)
  let ?D = "det3 ((a1, b1, c1), (a2, b2, c2), (a3, b3, c3))"
  have D: "?D \<noteq> 0" using det by (simp add: det_eqns_def)
  have ex: "a1 * x1 + b1 * x2 + c1 * x3 = d1" "a2 * x1 + b2 * x2 + c2 * x3 = d2"
    "a3 * x1 + b3 * x2 + c3 * x3 = d3" using x by simp_all
  have ey: "a1 * y1 + b1 * y2 + c1 * y3 = d1" "a2 * y1 + b2 * y2 + c2 * y3 = d2"
    "a3 * y1 + b3 * y2 + c3 * y3 = d3" using y by simp_all
  have "?D * x1 = ?D * y1" "?D * x2 = ?D * y2" "?D * x3 = ?D * y3"
    using cramer [OF ex] cramer [OF ey] by simp_all
  with D show ?thesis by simp
qed

lemma gesv_unique:
  assumes "det_eqns r1 r2 r3 \<noteq> 0" "sat x r1" "sat x r2" "sat x r3"
  shows "gesv r1 r2 r3 = Inr x"
  using gesv_regular [OF assms(1)] sat_unique [OF assms] by blast

section \<open>Facts about \<open>calculate_strains\<close>\<close>

subsection \<open>The rosette at 0, 45 and 90 degrees\<close>

lemma radians_0: "radians 0 = 0" by (simp add: radians_def)
lemma radians_45: "radians 45 = pi / 4" by (simp add: radians_def)
lemma radians_90: "radians 90 = pi / 2" by (simp add: radians_def)

lemma coeff_row_0: "coeff_row 0 = (1, 0, 0)" by (simp add: coeff_row_def)
lemma coeff_row_45: "coeff_row (pi / 4) = (1 / 2, 1 / 2, 1 / 2)"
  by (simp add: coeff_row_def cos_45 sin_45 power_divide)
lemma coeff_row_90: "coeff_row (pi / 2) = (0, 1, 0)" by (simp add: coeff_row_def)

lemma coeff_matrix_0_45_90: "coeff_matrix 0 45 90 = ((1, 0, 0), (1 / 2, 1 / 2, 1 / 2), (0, 1, 0))"
  by (simp add: coeff_matrix_def radians_0 radians_45 radians_90 coeff_row_0 coeff_row_45 coeff_row_90)

lemma regular_0_45_90: "\<not> singular (coeff_matrix 0 45 90)"
  by (simp add: coeff_matrix_0_45_90 singular_def)

lemma gesv_0_45_90:
  "gesv (1, 0, 0, a) (1 / 2, 1 / 2, 1 / 2, b) (0, 1, 0, c) = Inr (a, c, 2 * b - a - c)"
  by (simp add: gesv_def pivot3_def pivot2_def back_subst_def Let_def)

lemma calculate_strains_0_45_90:
  "calculate_strains 0 45 90 a b c = Inr (a, c, 2 * b - a - c)"
  by (simp add: calculate_strains_def coeff_matrix_0_45_90 gesv_0_45_90)

subsection \<open>From \<open>calculate_strains\<close> to the elimination\<close>

lemma det_eqns_augment:
  "det_eqns (augment ra ba) (augment rb bb) (augment rc bc) = det3 (ra, rb, rc)"
  by (cases ra; cases rb; cases rc) (simp add: det_eqns_def)

lemma sat_augment_coeff_row:
  "sat s (augment (coeff_row t) e) \<longleftrightarrow> strain_at s t = e"
  by (cases s) (simp add: coeff_row_def strain_at_def algebra_simps)

lemma calculate_strains_gesv:
  "calculate_strains ta tb tc ea eb ec =
     gesv (augment (coeff_row (radians ta)) ea) (augment (coeff_row (radians tb)) eb)
       (augment (coeff_row (radians tc)) ec)"
  by (simp add: calculate_strains_def coeff_matrix_def)

lemma det_coeff_matrix:
  "det_eqns (augment (coeff_row (radians ta)) ea) (augment (coeff_row (radians tb)) eb)
       (augment (coeff_row (radians tc)) ec) = det3 (coeff_matrix ta tb tc)"
  by (simp add: det_eqns_augment coeff_matrix_def)

lemma calculate_strains_regular:
  assumes "\<not> singular (coeff_matrix ta tb tc)"
  shows "\<exists>s. calculate_strains ta tb tc ea eb ec = Inr s \<and>
    strain_at s (radians ta) = ea \<and> strain_at s (radians tb) = eb \<and> strain_at s (radians tc) = ec"
  using gesv_regular [of "augment (coeff_row (radians ta)) ea" "augment (coeff_row (radians tb)) eb"
      "augment (coeff_row (radians tc)) ec"] assms
  by (simp add: calculate_strains_gesv det_coeff_matrix singular_def sat_augment_coeff_row)


lemma calculate_strains_unique:
  assumes "\<not> singular (coeff_matrix ta tb tc)"
    and "strain_at s (radians ta) = ea" "strain_at s (radians tb) = eb" "strain_at s (radians tc) = ec"
  shows "calculate_strains ta tb tc ea eb ec = Inr s"
  using gesv_unique [of "augment (coeff_row (radians ta)) ea" "augment (coeff_row (radians tb)) eb"
      "augment (coeff_row (radians tc)) ec" s] assms
  by (simp add: calculate_strains_gesv det_coeff_matrix singular_def sat_augment_coeff_row)

subsection \<open>Exchanged rows, repeated rows and angles 180 degrees apart\<close>

lemma det3_swap13: "det3 (rc, rb, ra) = - det3 (ra, rb, rc)"
  by (cases ra; cases rb; cases rc) (simp add: algebra_simps)


lemma coeff_row_shift: "coeff_row (radians (t + 180 * of_int k)) = coeff_row (radians t)"
proof -
  have r: "radians (t + 180 * of_int k) = radians t + pi * of_int k"
    by (simp add: radians_def algebra_simps)
  have c: "cos (pi * of_int k) = 1 \<or> cos (pi * of_int k) = - 1"
    by simp
  show ?thesis
    unfolding r coeff_row_def using c by (auto simp: cos_add sin_add power2_eq_square)
qed

lemma coeff_row_180: "coeff_row (radians (t + 180)) = coeff_row (radians t)"
  using coeff_row_shift [of t 1] by simp

lemma singular_swap13: "singular (coeff_matrix tc tb ta) \<longleftrightarrow> singular (coeff_matrix ta tb tc)"
  using det3_swap13 [of "coeff_row (radians tc)" "coeff_row (radians tb)" "coeff_row (radians ta)"]
  by (simp add: singular_def coeff_matrix_def)



section \<open>Facts about \<open>plot_mohrs_circle\<close>\<close>

lemma arctan2_range: "- pi < arctan2 y x \<and> arctan2 y x \<le> pi"
proof -
  have b: "- (pi / 2) < arctan (y / x)" "arctan (y / x) < pi / 2"
    by (rule arctan_lbound, rule arctan_ubound)
  have neg: "arctan (y / x) \<le> 0" if "x < 0" "0 \<le> y"
    using that by (simp add: divide_nonneg_neg)
  have pos: "0 < arctan (y / x)" if "x < 0" "y < 0"
    using that by (simp add: divide_neg_neg)
  show ?thesis
    using b neg pos pi_gt_zero by (auto simp: arctan2_def)
qed

lemma arctan2_polar:
  "x = sqrt (x\<^sup>2 + y\<^sup>2) * cos (arctan2 y x) \<and> y = sqrt (x\<^sup>2 + y\<^sup>2) * sin (arctan2 y x)"
proof (cases "x = 0")
  case True
  then show ?thesis by (simp add: arctan2_def)
next
  case False
  have s: "sqrt (x\<^sup>2 + y\<^sup>2) = \<bar>x\<bar> * sqrt (1 + (y / x)\<^sup>2)"
  proof -
    have "x\<^sup>2 + y\<^sup>2 = x\<^sup>2 * (1 + (y / x)\<^sup>2)"
      using False by (simp add: field_simps power2_eq_square)
    then show ?thesis by (simp add: real_sqrt_mult)
  qed
  have nz: "sqrt (1 + (y / x)\<^sup>2) \<noteq> 0"
    by (metis add_pos_nonneg less_numeral_extra(1) real_sqrt_gt_zero zero_le_power2 less_irrefl)
  have c: "sqrt (x\<^sup>2 + y\<^sup>2) * cos (arctan (y / x)) = \<bar>x\<bar>"
    using nz by (simp add: s cos_arctan)
  have d: "sqrt (x\<^sup>2 + y\<^sup>2) * sin (arctan (y / x)) = \<bar>x\<bar> * (y / x)"
    using nz by (simp add: s sin_arctan)
  show ?thesis
  proof (cases "0 < x")
    case True
    then show ?thesis using c d by (simp add: arctan2_def)
  next
    case f: False
    with False have "x < 0" by simp
    then show ?thesis using c d by (simp add: arctan2_def sin_diff cos_diff)
  qed
qed

lemma radius_nonneg: "0 \<le> radius ex ey g" by (simp add: radius_def)

lemma radius_zero_iff: "radius ex ey g = 0 \<longleftrightarrow> ex = ey \<and> g = 0"
  by (simp add: radius_def)

lemma theta_p_deg_eq: "theta_p_deg ex ey g = 90 * arctan2 g (ex - ey) / pi"
  by (simp add: theta_p_deg_def theta_p_rad_def degrees_def)

lemma theta_p_deg_range: "- 90 < theta_p_deg ex ey g \<and> theta_p_deg ex ey g \<le> 90"
proof -
  have "- pi < arctan2 g (ex - ey)" "arctan2 g (ex - ey) \<le> pi"
    using arctan2_range by simp_all
  then show ?thesis
    by (simp add: theta_p_deg_eq field_simps)
qed

lemma endpoints_on_circle:
  "dist2 (ex, - g / 2) (center ex ey, 0) = radius ex ey g"
  "dist2 (ey, g / 2) (center ex ey, 0) = radius ex ey g"
  by (simp_all add: center_def radius_def field_simps power2_eq_square)

lemma sqrt_370000: "608.275 < sqrt 370000" "sqrt 370000 < 608.285"
proof -
  have "(608.275 :: real)\<^sup>2 < 370000" by (simp add: power2_eq_square)
  then show "608.275 < sqrt 370000" by (rule real_less_rsqrt)
  have "(370000 :: real) < 608.285\<^sup>2" by (simp add: power2_eq_square)
  then show "sqrt 370000 < 608.285" by (rule real_less_lsqrt [rotated 1]) simp
qed

lemma radius_example: "radius 1000 (- 200) 200 = sqrt 370000"
  by (simp add: radius_def)

lemma theta_example: "theta_p_deg 1000 (- 200) 200 = 90 * arctan (1 / 6) / pi"
  by (simp add: theta_p_deg_eq arctan2_def)

lemma double_radius: "2 * radius ex ey g = sqrt ((ex - ey)\<^sup>2 + g\<^sup>2)"
proof -
  have e: "((ex - ey) / 2)\<^sup>2 + (g / 2)\<^sup>2 = ((ex - ey)\<^sup>2 + g\<^sup>2) / 4"
    by (simp add: power_divide add_divide_distrib)
  have "radius ex ey g = sqrt (((ex - ey)\<^sup>2 + g\<^sup>2) / 4)"
    by (simp only: radius_def e)
  also have "\<dots> = sqrt ((ex - ey)\<^sup>2 + g\<^sup>2) / sqrt 4" by (rule real_sqrt_divide)
  finally show ?thesis by simp
qed


subsection \<open>Numeric bounds for the worked example\<close>

lemma sum_upto_7:
  fixes f :: "nat \<Rightarrow> real"
  shows "(\<Sum>m<7. f m) = f 0 + f 1 + f 2 + f 3 + f 4 + f 5 + f 6"
  by (simp add: eval_nat_numeral)

lemma sin_coeff_values:
  "sin_coeff (Suc 0) = 1" "sin_coeff 2 = 0" "sin_coeff 3 = - 1 / 6" "sin_coeff 4 = 0"
  "sin_coeff 5 = 1 / 120" "sin_coeff 6 = 0"
  by (simp_all add: sin_coeff_def fact_numeral)

lemma sin_poly7:
  fixes x :: real
  shows "(\<Sum>m<7. sin_coeff m * x ^ m) = x - x ^ 3 / 6 + x ^ 5 / 120"
  by (simp add: sum_upto_7 sin_coeff_values)

lemma sin_bound7:
  fixes x :: real
  shows "\<bar>sin x - (x - x ^ 3 / 6 + x ^ 5 / 120)\<bar> \<le> \<bar>x\<bar> ^ 7 / 5040"
proof -
  have "fact 7 = (5040::real)" by (simp add: fact_numeral)
  then have "inverse (fact 7) * \<bar>x\<bar> ^ 7 = \<bar>x\<bar> ^ 7 / 5040"
    by simp
  then show ?thesis
    using Maclaurin_sin_bound [of x 7] by (simp only: sin_poly7)
qed

lemma sin_upper7:
  fixes x :: real
  shows "sin x \<le> x - x ^ 3 / 6 + x ^ 5 / 120 + \<bar>x\<bar> ^ 7 / 5040"
  using sin_bound7 [of x] by linarith

lemma sin_lower7:
  fixes x :: real
  shows "x - x ^ 3 / 6 + x ^ 5 / 120 - \<bar>x\<bar> ^ 7 / 5040 \<le> sin x"
  using sin_bound7 [of x] by linarith

lemma pi_bounds: "3.1413 < pi" "pi < 3.1419"
proof -
  have "sin (0.52355 :: real) \<le> 0.52355 - 0.52355 ^ 3 / 6 + 0.52355 ^ 5 / 120 + \<bar>0.52355\<bar> ^ 7 / 5040"
    by (rule sin_upper7)
  also have "\<dots> < 1 / 2" by (simp add: power_divide)
  finally have lo: "sin (0.52355 :: real) < 1 / 2" .
  have "(1 / 2 :: real) < 0.52365 - 0.52365 ^ 3 / 6 + 0.52365 ^ 5 / 120 - \<bar>0.52365\<bar> ^ 7 / 5040"
    by (simp add: power_divide)
  also have "\<dots> \<le> sin (0.52365 :: real)" by (rule sin_lower7)
  finally have hi: "1 / 2 < sin (0.52365 :: real)" .
  have h: "pi / 6 \<le> pi / 2" "- (pi / 2) \<le> pi / 6" by simp_all
  have g2: "(0.52355::real) \<le> pi / 2" "(0.52365::real) \<le> pi / 2"
    "- (pi / 2) \<le> (0.52355::real)" "- (pi / 2) \<le> (0.52365::real)"
    using pi_ge_two by simp_all
  have "sin (0.52355 :: real) < sin (pi / 6)" using lo by (simp only: sin_30)
  then have "(0.52355 :: real) < pi / 6"
    using sin_mono_less_eq [of "0.52355" "pi / 6"] g2 h by blast
  then show "3.1413 < pi" by simp
  have "sin (pi / 6) < sin (0.52365 :: real)" using hi by (simp only: sin_30)
  then have "pi / 6 < (0.52365 :: real)"
    using sin_mono_less_eq [of "pi / 6" "0.52365"] g2 h by blast
  then show "pi < 3.1419" by simp
qed

lemma sin_arctan_sixth: "sin (arctan (1 / 6)) = 1 / sqrt 37"
proof -
  have e: "1 + (1 / 6 :: real)\<^sup>2 = 37 / 36" by (simp add: power2_eq_square)
  have s36: "sqrt (36::real) = 6" using real_sqrt_abs [of 6] by simp
  have "sqrt (1 + (1 / 6)\<^sup>2) = sqrt (37 / 36)" by (simp only: e)
  also have "\<dots> = sqrt 37 / sqrt 36" by (rule real_sqrt_divide)
  finally have r: "sqrt (1 + (1 / 6)\<^sup>2) = sqrt 37 / 6" by (simp only: s36)
  have "sin (arctan (1 / 6)) = (1 / 6) / sqrt (1 + (1 / 6)\<^sup>2)" by (rule sin_arctan)
  also have "\<dots> = 1 / sqrt 37" unfolding r by simp
  finally show ?thesis .
qed

lemma arctan_sixth_bounds: "0.1651 < arctan (1 / 6)" "arctan (1 / 6) < 0.1652"
proof -
  have "(6.082 :: real)\<^sup>2 < 37" by (simp add: power2_eq_square)
  then have s1: "6.082 < sqrt 37" by (rule real_less_rsqrt)
  have "(37 :: real) < 6.083\<^sup>2" by (simp add: power2_eq_square)
  then have s2: "sqrt 37 < 6.083" by (rule real_less_lsqrt [rotated 1]) simp
  have r: "- (pi / 2) \<le> arctan (1 / 6)" "arctan (1 / 6) \<le> pi / 2"
    using arctan_bounded [of "1 / 6"] by simp_all
  have g2: "(0.1651::real) \<le> pi / 2" "(0.1652::real) \<le> pi / 2"
    "- (pi / 2) \<le> (0.1651::real)" "- (pi / 2) \<le> (0.1652::real)"
    using pi_ge_two by simp_all
  have "sin (0.1651 :: real) \<le> 0.1651 - 0.1651 ^ 3 / 6 + 0.1651 ^ 5 / 120 + \<bar>0.1651\<bar> ^ 7 / 5040"
    by (rule sin_upper7)
  also have "\<dots> < 0.16436" by (simp add: power_divide)
  also have "\<dots> < 1 / sqrt 37" using s1 s2 by (simp add: field_simps)
  finally have "sin (0.1651 :: real) < sin (arctan (1 / 6))" by (simp only: sin_arctan_sixth)
  then show "0.1651 < arctan (1 / 6)"
    using sin_mono_less_eq [of "0.1651" "arctan (1 / 6)"] g2 r by blast
  have "1 / sqrt 37 < (0.16444::real)" using s1 s2 by (simp add: field_simps)
  also have "\<dots> < 0.1652 - 0.1652 ^ 3 / 6 + 0.1652 ^ 5 / 120 - \<bar>0.1652\<bar> ^ 7 / 5040"
    by (simp add: power_divide)
  also have "\<dots> \<le> sin (0.1652 :: real)" by (rule sin_lower7)
  finally have "sin (arctan (1 / 6)) < sin (0.1652 :: real)" by (simp only: sin_arctan_sixth)
  then show "arctan (1 / 6) < 0.1652"
    using sin_mono_less_eq [of "arctan (1 / 6)" "0.1652"] g2 r by blast
qed

lemma theta_example_bounds:
  "4.725 < 90 * arctan (1 / 6) / pi" "90 * arctan (1 / 6) / pi < 4.735"
proof -
  have "4.725 * pi < 4.725 * 3.1419" using pi_bounds by simp
  also have "\<dots> < 90 * (0.1651::real)" by simp
  also have "\<dots> < 90 * arctan (1 / 6)" using arctan_sixth_bounds by simp
  finally show "4.725 < 90 * arctan (1 / 6) / pi" by (simp add: field_simps)
  have "90 * arctan (1 / 6) < 90 * (0.1652::real)" using arctan_sixth_bounds by simp
  also have "\<dots> < 4.735 * 3.1413" by simp
  also have "\<dots> < 4.735 * pi" using pi_bounds by simp
  finally show "90 * arctan (1 / 6) / pi < 4.735" by (simp add: field_simps)
qed

subsection \<open>Closeness to a decimal value\<close>

lemma abs_diff_less:
  fixes x :: real
  assumes "lo < x" "x < hi" "c - t \<le> lo" "hi \<le> c + t"
  shows "\<bar>x - c\<bar> < t"
  using assms by arith

lemma abs_diff_not_less:
  fixes x :: real
  assumes "x < hi" "hi \<le> c - t"
  shows "\<not> \<bar>x - c\<bar> < t"
  using assms by arith


section \<open>The double-precision reading\<close>

subsection \<open>Rounding to the nearest double\<close>

lemma round_even_near:
  assumes "\<bar>q - of_int m\<bar> < 1 / 2"
  shows "round_even q = m"
proof -
  have b: "of_int m - 1 / 2 < q" "q < of_int m + 1 / 2"
    using assms by linarith+
  have "of_int (m - 1) \<le> q" using b(1) by simp
  then have "m - 1 \<le> \<lfloor>q\<rfloor>" by (simp only: le_floor_iff)
  moreover have "q < of_int (m + 1)" using b(2) by simp
  then have "\<lfloor>q\<rfloor> < m + 1" by (simp only: floor_less_iff)
  ultimately have "\<lfloor>q\<rfloor> = m \<or> \<lfloor>q\<rfloor> = m - 1" by linarith
  then show ?thesis
  proof
    assume f: "\<lfloor>q\<rfloor> = m"
    have "q - of_int m < 1 / 2" using b by linarith
    then show ?thesis by (simp add: round_even_def f)
  next
    assume f: "\<lfloor>q\<rfloor> = m - 1"
    have "1 / 2 < q - of_int (m - 1)" using b by simp
    then show ?thesis by (simp add: round_even_def f Let_def)
  qed
qed




lemma fl_exponent:
  assumes "2 ^ 52 \<le> \<bar>x\<bar> * 2 ^ n" "\<bar>x\<bar> * 2 ^ n < 2 ^ 53"
  shows "\<lfloor>log 2 \<bar>x\<bar>\<rfloor> - 52 = - int n"
proof -
  have pos: "0 < \<bar>x\<bar>" using assms(1) by (cases "x = 0") simp_all
  have e: "(2::real) powi (52 - int n) * 2 ^ n = 2 ^ 52" "(2::real) powi (53 - int n) * 2 ^ n = 2 ^ 53"
    using power_int_add [of "2::real" "52 - int n" "int n"]
      power_int_add [of "2::real" "53 - int n" "int n"] by simp_all
  have "2 powi (52 - int n) \<le> \<bar>x\<bar>"
  proof -
    have "2 powi (52 - int n) * 2 ^ n \<le> \<bar>x\<bar> * 2 ^ n" using assms(1) by (simp only: e)
    then show ?thesis by simp
  qed
  moreover have "\<bar>x\<bar> < 2 powi (53 - int n)"
  proof -
    have "\<bar>x\<bar> * 2 ^ n < 2 powi (53 - int n) * 2 ^ n" using assms(2) by (simp only: e)
    then show ?thesis by simp
  qed
  moreover have "(2::real) powr (of_int (52 - int n)) = 2 powi (52 - int n)"
    "(2::real) powr (of_int (53 - int n)) = 2 powi (53 - int n)"
    by (rule powr_real_of_int'; simp)+
  moreover have "52 - int n + 1 = 53 - int n" by simp
  ultimately have "2 powr (of_int (52 - int n)) \<le> \<bar>x\<bar> \<and> \<bar>x\<bar> < 2 powr (of_int (52 - int n + 1))"
    by (simp only: simp_thms)
  then have "\<lfloor>log 2 \<bar>x\<bar>\<rfloor> = 52 - int n"
    using floor_log_eq_powr_iff [of "\<bar>x\<bar>" 2 "52 - int n"] pos by simp
  then show ?thesis by simp
qed

lemma fl_near:
  assumes "2 ^ 52 \<le> \<bar>x\<bar> * 2 ^ n" "\<bar>x\<bar> * 2 ^ n < 2 ^ 53" "\<bar>x * 2 ^ n - of_int m\<bar> < 1 / 2"
  shows "fl x = of_int m / 2 ^ n"
proof -
  have nz: "x \<noteq> 0" using assms(1) by auto
  have e: "\<lfloor>log 2 \<bar>x\<bar>\<rfloor> - 52 = - int n" using assms(1,2) by (rule fl_exponent)
  have p: "(2::real) powi (- int n) = 1 / 2 ^ n" by (simp add: power_int_minus_divide)
  have "round_even (x / 2 powi (- int n)) = m"
    using assms(3) by (intro round_even_near) (simp add: p)
  then show ?thesis
    using nz by (simp add: fl_def e Let_def p)
qed




subsection \<open>The constant \<open>NPY_PI\<close> lies just below pi\<close>

lemma sum_upto_19:
  fixes f :: "nat \<Rightarrow> real"
  shows "(\<Sum>m<19. f m) = f 0 + f 1 + f 2 + f 3 + f 4 + f 5 + f 6 + f 7 + f 8 + f 9 + f 10
     + f 11 + f 12 + f 13 + f 14 + f 15 + f 16 + f 17 + f 18"
  by (simp add: eval_nat_numeral)

lemma sin_coeff_even: "sin_coeff 2 = 0" "sin_coeff 4 = 0" "sin_coeff 6 = 0" "sin_coeff 8 = 0"
  "sin_coeff 10 = 0" "sin_coeff 12 = 0" "sin_coeff 14 = 0" "sin_coeff 16 = 0" "sin_coeff 18 = 0"
  by (simp_all add: sin_coeff_def)

lemma sin_coeff_odd:
  "sin_coeff (Suc 0) = 1" "sin_coeff 3 = - 1 / 6" "sin_coeff 5 = 1 / 120"
  "sin_coeff 7 = - 1 / 5040" "sin_coeff 9 = 1 / 362880" "sin_coeff 11 = - 1 / 39916800"
  "sin_coeff 13 = 1 / 6227020800" "sin_coeff 15 = - 1 / 1307674368000"
  "sin_coeff 17 = 1 / 355687428096000"
  by (simp_all add: sin_coeff_def fact_numeral)

lemma sin_poly19:
  fixes x :: real
  shows "(\<Sum>m<19. sin_coeff m * x ^ m) =
    x - x ^ 3 / 6 + x ^ 5 / 120 - x ^ 7 / 5040 + x ^ 9 / 362880 - x ^ 11 / 39916800
      + x ^ 13 / 6227020800 - x ^ 15 / 1307674368000 + x ^ 17 / 355687428096000"
  by (simp add: sum_upto_19 sin_coeff_even sin_coeff_odd)

lemma sin_bound19:
  fixes x :: real
  shows "\<bar>sin x - (x - x ^ 3 / 6 + x ^ 5 / 120 - x ^ 7 / 5040 + x ^ 9 / 362880 - x ^ 11 / 39916800
      + x ^ 13 / 6227020800 - x ^ 15 / 1307674368000 + x ^ 17 / 355687428096000)\<bar>
     \<le> \<bar>x\<bar> ^ 19 / 121645100408832000"
proof -
  have "fact 19 = (121645100408832000::real)" by (simp add: fact_numeral)
  then have "inverse (fact 19) * \<bar>x\<bar> ^ 19 = \<bar>x\<bar> ^ 19 / 121645100408832000"
    by simp
  then show ?thesis
    using Maclaurin_sin_bound [of x 19] by (simp only: sin_poly19)
qed

lemma sin_upper19:
  fixes x :: real
  shows "sin x \<le> x - x ^ 3 / 6 + x ^ 5 / 120 - x ^ 7 / 5040 + x ^ 9 / 362880 - x ^ 11 / 39916800
      + x ^ 13 / 6227020800 - x ^ 15 / 1307674368000 + x ^ 17 / 355687428096000
      + \<bar>x\<bar> ^ 19 / 121645100408832000"
  using sin_bound19 [of x] by linarith

lemma sin_lower19:
  fixes x :: real
  shows "x - x ^ 3 / 6 + x ^ 5 / 120 - x ^ 7 / 5040 + x ^ 9 / 362880 - x ^ 11 / 39916800
      + x ^ 13 / 6227020800 - x ^ 15 / 1307674368000 + x ^ 17 / 355687428096000
      - \<bar>x\<bar> ^ 19 / 121645100408832000 \<le> sin x"
  using sin_bound19 [of x] by linarith

lemma NPY_PI_bounds: "NPY_PI < pi" "pi < NPY_PI + 1 / 2 ^ 52"
proof -
  have h: "pi / 6 \<le> pi / 2" "- (pi / 2) \<le> pi / 6" by simp_all
  have g: "(884279719003555 / 1688849860263936 :: real) \<le> pi / 2" "- (pi / 2) \<le> (884279719003555 / 1688849860263936 :: real)"
    "(14148475504056881 / 27021597764222976 :: real) \<le> pi / 2" "- (pi / 2) \<le> (14148475504056881 / 27021597764222976 :: real)"
    using pi_ge_two by simp_all
  have "sin (884279719003555 / 1688849860263936 :: real) \<le> (884279719003555 / 1688849860263936 :: real)
     - (884279719003555 / 1688849860263936) ^ 3 / 6
     + (884279719003555 / 1688849860263936) ^ 5 / 120
     - (884279719003555 / 1688849860263936) ^ 7 / 5040
     + (884279719003555 / 1688849860263936) ^ 9 / 362880
     - (884279719003555 / 1688849860263936) ^ 11 / 39916800
     + (884279719003555 / 1688849860263936) ^ 13 / 6227020800
     - (884279719003555 / 1688849860263936) ^ 15 / 1307674368000
     + (884279719003555 / 1688849860263936) ^ 17 / 355687428096000
     + \<bar>884279719003555 / 1688849860263936\<bar> ^ 19 / 121645100408832000"
    by (rule sin_upper19)
  also have "\<dots> < 1 / 2" by (simp add: power_divide)
  finally have "sin (884279719003555 / 1688849860263936 :: real) < sin (pi / 6)" by (simp only: sin_30)
  then have "(884279719003555 / 1688849860263936 :: real) < pi / 6"
    using sin_mono_less_eq [of "884279719003555 / 1688849860263936" "pi / 6"] g h by blast
  then show "NPY_PI < pi" by (simp add: NPY_PI_def)
  have "(1 / 2 :: real) < (14148475504056881 / 27021597764222976 :: real)
     - (14148475504056881 / 27021597764222976) ^ 3 / 6
     + (14148475504056881 / 27021597764222976) ^ 5 / 120
     - (14148475504056881 / 27021597764222976) ^ 7 / 5040
     + (14148475504056881 / 27021597764222976) ^ 9 / 362880
     - (14148475504056881 / 27021597764222976) ^ 11 / 39916800
     + (14148475504056881 / 27021597764222976) ^ 13 / 6227020800
     - (14148475504056881 / 27021597764222976) ^ 15 / 1307674368000
     + (14148475504056881 / 27021597764222976) ^ 17 / 355687428096000
     - \<bar>14148475504056881 / 27021597764222976\<bar> ^ 19 / 121645100408832000"
    by (simp add: power_divide)
  also have "\<dots> \<le> sin (14148475504056881 / 27021597764222976 :: real)" by (rule sin_lower19)
  finally have "sin (pi / 6) < sin (14148475504056881 / 27021597764222976 :: real)" by (simp only: sin_30)
  then have "pi / 6 < (14148475504056881 / 27021597764222976 :: real)"
    using sin_mono_less_eq [of "pi / 6" "14148475504056881 / 27021597764222976"] g h by blast
  then show "pi < NPY_PI + 1 / 2 ^ 52" by (simp add: NPY_PI_def)
qed

lemma fl_pi: "fl pi = NPY_PI"
proof -
  have "fl pi = of_int 7074237752028440 / 2 ^ 51"
    using NPY_PI_bounds by (intro fl_near) (simp_all add: NPY_PI_def abs_less_iff)
  then show ?thesis by (simp add: NPY_PI_def)
qed

subsection \<open>The angles 0, 180 and 90 degrees in double precision\<close>


lemma fl_rad2deg: "fl (180 / NPY_PI) = 8063664102031864 / 2 ^ 47"
  using fl_near [of "180 / NPY_PI" 47 8063664102031864]
  by (simp add: NPY_PI_def abs_less_iff)





lemma NPY_PI_coarse: "3 < NPY_PI" "NPY_PI < 4"
  by (simp_all add: NPY_PI_def)









subsection \<open>The principal angle of a state with a small negative shear\<close>

lemma fl_minus_1200: "fl (- 200 - 1000) = - 1200"
proof -
  have "fl (- 1200) = of_int (- 5277655813324800) / 2 ^ 42"
    by (rule fl_near) simp_all
  then show ?thesis by simp
qed

lemma arctan_small: "0 < arctan (1 / (1200 * 2 ^ 43))" "arctan (1 / (1200 * 2 ^ 43)) < 1 / 2 ^ 52"
proof -
  let ?t = "1 / (1200 * 2 ^ 43) :: real" and ?u = "1 / 2 ^ 52 :: real"
  show "0 < arctan ?t" by simp
  have "sin (arctan ?t) = ?t / sqrt (1 + ?t\<^sup>2)" by (rule sin_arctan)
  also have "\<dots> \<le> ?t"
  proof -
    have "1 \<le> sqrt (1 + ?t\<^sup>2)" by simp
    then show ?thesis by (simp add: field_simps)
  qed
  also have "\<dots> < ?u - ?u ^ 3 / 6 + ?u ^ 5 / 120 - \<bar>?u\<bar> ^ 7 / 5040"
    by (simp add: power_divide)
  also have "\<dots> \<le> sin ?u" by (rule sin_lower7)
  finally have "sin (arctan ?t) < sin ?u" .
  moreover have "- (pi / 2) \<le> arctan ?t" "arctan ?t \<le> pi / 2"
    using arctan_bounded [of ?t] by simp_all
  moreover have "- (pi / 2) \<le> ?u" "?u \<le> pi / 2" using pi_ge_two by simp_all
  ultimately show "arctan ?t < ?u"
    using sin_mono_less_eq [of "arctan ?t" ?u] by blast
qed

lemma np_arctan2_example: "np_arctan2 (- (1 / 2 ^ 43)) (- 1200) = - NPY_PI"
proof -
  let ?a = "arctan (1 / (1200 * 2 ^ 43))"
  have a: "arctan2 (- (1 / 2 ^ 43)) (- 1200) = ?a - pi"
    by (simp add: arctan2_def)
  have b: "0 < pi - NPY_PI" "pi - NPY_PI < 1 / 2 ^ 52" using NPY_PI_bounds by simp_all
  have c: "0 < ?a" "?a < 1 / 2 ^ 52" by (rule arctan_small)+
  have d: "\<bar>?a - pi\<bar> = pi - ?a" using c pi_ge_two by simp
  have "fl (?a - pi) = of_int (- 7074237752028440) / 2 ^ 51"
  proof (rule fl_near)
    have "(1 :: real) / 2 ^ 52 < 1" by simp
    then have "2 \<le> pi - ?a" "pi - ?a < 4" using b c NPY_PI_coarse pi_less_4 by linarith+
    then show "2 ^ 52 \<le> \<bar>?a - pi\<bar> * 2 ^ 51" "\<bar>?a - pi\<bar> * 2 ^ 51 < 2 ^ 53"
      unfolding d by simp_all
    have "\<bar>?a - (pi - NPY_PI)\<bar> < 1 / 2 ^ 52" using b c by linarith
    then have "\<bar>?a - (pi - NPY_PI)\<bar> * 2 ^ 51 < 1 / 2 ^ 52 * 2 ^ 51"
      by (rule mult_strict_right_mono) simp
    moreover have "(?a - pi) * 2 ^ 51 - of_int (- 7074237752028440) = (?a - (pi - NPY_PI)) * 2 ^ 51"
      by (simp add: NPY_PI_def algebra_simps)
    moreover have "\<bar>(?a - (pi - NPY_PI)) * 2 ^ 51\<bar> = \<bar>?a - (pi - NPY_PI)\<bar> * 2 ^ 51"
      by (rule abs_mult_pos [symmetric]) simp
    moreover have "(1 :: real) / 2 ^ 52 * 2 ^ 51 = 1 / 2" by simp
    ultimately show "\<bar>(?a - pi) * 2 ^ 51 - of_int (- 7074237752028440)\<bar> < 1 / 2"
      by (simp only:)
  qed
  also have "\<dots> = - NPY_PI" by (simp add: NPY_PI_def)
  finally show ?thesis by (simp only: np_arctan2_def a)
qed

lemma theta_p_rad_double_example:
  "theta_p_rad_double (- 200) 1000 (- (1 / 2 ^ 43)) = - NPY_PI / 2"
proof -
  have "fl (0.5 * - NPY_PI) = of_int (- 7074237752028440) / 2 ^ 52"
    by (rule fl_near) (simp_all add: NPY_PI_def)
  also have "\<dots> = - NPY_PI / 2" by (simp add: NPY_PI_def)
  finally show ?thesis
    by (simp only: theta_p_rad_double_def fl_minus_1200 np_arctan2_example)
qed

section \<open>The claims\<close>

text \<open>
  Claim C1.  \<open>calculate_strains\<close> converts each angle to radians and builds the matrix
  whose row for an angle \<open>theta\<close> is \<open>[cos\<^sup>2 theta, sin\<^sup>2 theta, sin theta * cos theta]\<close>.
  Whenever that matrix is non-singular, the call returns a strain state
  \<open>(eps_x, eps_y, gamma_xy)\<close> under which every reading satisfies the
  strain-transformation equation.
\<close>

theorem calculate_strains_solves_system:
  assumes "\<not> singular (coeff_matrix theta_a theta_b theta_c)"
  shows "coeff_matrix theta_a theta_b theta_c =
      (((cos (theta_a * (pi / 180)))\<^sup>2, (sin (theta_a * (pi / 180)))\<^sup>2,
          sin (theta_a * (pi / 180)) * cos (theta_a * (pi / 180))),
       ((cos (theta_b * (pi / 180)))\<^sup>2, (sin (theta_b * (pi / 180)))\<^sup>2,
          sin (theta_b * (pi / 180)) * cos (theta_b * (pi / 180))),
       ((cos (theta_c * (pi / 180)))\<^sup>2, (sin (theta_c * (pi / 180)))\<^sup>2,
          sin (theta_c * (pi / 180)) * cos (theta_c * (pi / 180)))) \<and>
    (\<exists>eps_x eps_y gamma_xy.
       calculate_strains theta_a theta_b theta_c eps_a eps_b eps_c = Inr (eps_x, eps_y, gamma_xy) \<and>
       eps_a = eps_x * (cos (theta_a * (pi / 180)))\<^sup>2 + eps_y * (sin (theta_a * (pi / 180)))\<^sup>2
                 + gamma_xy * sin (theta_a * (pi / 180)) * cos (theta_a * (pi / 180)) \<and>
       eps_b = eps_x * (cos (theta_b * (pi / 180)))\<^sup>2 + eps_y * (sin (theta_b * (pi / 180)))\<^sup>2
                 + gamma_xy * sin (theta_b * (pi / 180)) * cos (theta_b * (pi / 180)) \<and>
       eps_c = eps_x * (cos (theta_c * (pi / 180)))\<^sup>2 + eps_y * (sin (theta_c * (pi / 180)))\<^sup>2
                 + gamma_xy * sin (theta_c * (pi / 180)) * cos (theta_c * (pi / 180)))"
proof
  show "coeff_matrix theta_a theta_b theta_c =
      (((cos (theta_a * (pi / 180)))\<^sup>2, (sin (theta_a * (pi / 180)))\<^sup>2,
          sin (theta_a * (pi / 180)) * cos (theta_a * (pi / 180))),
       ((cos (theta_b * (pi / 180)))\<^sup>2, (sin (theta_b * (pi / 180)))\<^sup>2,
          sin (theta_b * (pi / 180)) * cos (theta_b * (pi / 180))),
       ((cos (theta_c * (pi / 180)))\<^sup>2, (sin (theta_c * (pi / 180)))\<^sup>2,
          sin (theta_c * (pi / 180)) * cos (theta_c * (pi / 180))))"
    by (simp add: coeff_matrix_def coeff_row_def radians_def)
  obtain s where s: "calculate_strains theta_a theta_b theta_c eps_a eps_b eps_c = Inr s"
    "strain_at s (radians theta_a) = eps_a" "strain_at s (radians theta_b) = eps_b"
    "strain_at s (radians theta_c) = eps_c"
    using calculate_strains_regular [OF assms] by blast
  obtain eps_x eps_y gamma_xy where [simp]: "s = (eps_x, eps_y, gamma_xy)" by (cases s)
  show "\<exists>eps_x eps_y gamma_xy.
       calculate_strains theta_a theta_b theta_c eps_a eps_b eps_c = Inr (eps_x, eps_y, gamma_xy) \<and>
       eps_a = eps_x * (cos (theta_a * (pi / 180)))\<^sup>2 + eps_y * (sin (theta_a * (pi / 180)))\<^sup>2
                 + gamma_xy * sin (theta_a * (pi / 180)) * cos (theta_a * (pi / 180)) \<and>
       eps_b = eps_x * (cos (theta_b * (pi / 180)))\<^sup>2 + eps_y * (sin (theta_b * (pi / 180)))\<^sup>2
                 + gamma_xy * sin (theta_b * (pi / 180)) * cos (theta_b * (pi / 180)) \<and>
       eps_c = eps_x * (cos (theta_c * (pi / 180)))\<^sup>2 + eps_y * (sin (theta_c * (pi / 180)))\<^sup>2
                 + gamma_xy * sin (theta_c * (pi / 180)) * cos (theta_c * (pi / 180))"
    using s by (intro exI [of _ eps_x] exI [of _ eps_y] exI [of _ gamma_xy])
      (simp add: strain_at_def radians_def)
qed

text \<open>
  The rosette at 0, 45 and 90 degrees with the readings 1000, 500 and -200 is such a
  non-singular case.
\<close>

theorem calculate_strains_solves_system_witness:
  "\<not> singular (coeff_matrix 0 45 90) \<and>
   calculate_strains 0 45 90 1000 500 (- 200) = Inr (1000, - 200, 200) \<and>
   (500 :: real) = 1000 * (cos (45 * (pi / 180)))\<^sup>2 + (- 200) * (sin (45 * (pi / 180)))\<^sup>2
            + 200 * sin (45 * (pi / 180)) * cos (45 * (pi / 180))"
proof -
  have r: "\<not> singular (coeff_matrix 0 45 90)" by (rule regular_0_45_90)
  have v: "calculate_strains 0 45 90 1000 500 (- 200) = Inr (1000, - 200, 200)"
    by (simp add: calculate_strains_0_45_90)
  show ?thesis
    using calculate_strains_solves_system [OF r, of 1000 500 "- 200"] r v by auto
qed


text \<open>
  Claim C2.  \<open>plot_mohrs_circle\<close> computes, in closed form, the center
  \<open>(eps_x + eps_y) / 2\<close>, the radius
  \<open>sqrt (((eps_x - eps_y) / 2)\<^sup>2 + (gamma_xy / 2)\<^sup>2)\<close>, the principal strains
  \<open>center + radius\<close> and \<open>center - radius\<close>, and the principal angle
  \<open>degrees (0.5 * arctan2 gamma_xy (eps_x - eps_y))\<close>.  The arctangent is the
  two-argument one: it is the angle at which the point \<open>(eps_x - eps_y, gamma_xy)\<close> lies,
  at distance twice the radius from the origin.
\<close>

theorem plot_mohrs_circle_closed_form:
  "snd (plot_mohrs_circle eps_x eps_y gamma_xy) =
     ((eps_x + eps_y) / 2 + sqrt (((eps_x - eps_y) / 2)\<^sup>2 + (gamma_xy / 2)\<^sup>2),
      (eps_x + eps_y) / 2 - sqrt (((eps_x - eps_y) / 2)\<^sup>2 + (gamma_xy / 2)\<^sup>2),
      degrees (0.5 * arctan2 gamma_xy (eps_x - eps_y))) \<and>
   center eps_x eps_y = (eps_x + eps_y) / 2 \<and>
   radius eps_x eps_y gamma_xy = sqrt (((eps_x - eps_y) / 2)\<^sup>2 + (gamma_xy / 2)\<^sup>2) \<and>
   eps1 eps_x eps_y gamma_xy = center eps_x eps_y + radius eps_x eps_y gamma_xy \<and>
   eps2 eps_x eps_y gamma_xy = center eps_x eps_y - radius eps_x eps_y gamma_xy \<and>
   theta_p_deg eps_x eps_y gamma_xy = degrees (0.5 * arctan2 gamma_xy (eps_x - eps_y)) \<and>
   theta_p_deg eps_x eps_y gamma_xy = 0.5 * arctan2 gamma_xy (eps_x - eps_y) * (180 / pi) \<and>
   eps_x - eps_y = 2 * radius eps_x eps_y gamma_xy * cos (arctan2 gamma_xy (eps_x - eps_y)) \<and>
   gamma_xy = 2 * radius eps_x eps_y gamma_xy * sin (arctan2 gamma_xy (eps_x - eps_y))"
proof -
  have "snd (plot_mohrs_circle eps_x eps_y gamma_xy) =
     ((eps_x + eps_y) / 2 + sqrt (((eps_x - eps_y) / 2)\<^sup>2 + (gamma_xy / 2)\<^sup>2),
      (eps_x + eps_y) / 2 - sqrt (((eps_x - eps_y) / 2)\<^sup>2 + (gamma_xy / 2)\<^sup>2),
      degrees (0.5 * arctan2 gamma_xy (eps_x - eps_y)))"
    by (simp add: plot_mohrs_circle_def eps1_def eps2_def center_def radius_def
        theta_p_deg_def theta_p_rad_def)
  moreover have "theta_p_deg eps_x eps_y gamma_xy = degrees (0.5 * arctan2 gamma_xy (eps_x - eps_y))"
    by (simp add: theta_p_deg_def theta_p_rad_def)
  moreover have "theta_p_deg eps_x eps_y gamma_xy = 0.5 * arctan2 gamma_xy (eps_x - eps_y) * (180 / pi)"
    by (simp only: theta_p_deg_def theta_p_rad_def degrees_def)
  moreover have "eps_x - eps_y = 2 * radius eps_x eps_y gamma_xy * cos (arctan2 gamma_xy (eps_x - eps_y))"
    "gamma_xy = 2 * radius eps_x eps_y gamma_xy * sin (arctan2 gamma_xy (eps_x - eps_y))"
    using arctan2_polar [of "eps_x - eps_y" gamma_xy] by (simp_all only: double_radius)
  ultimately show ?thesis
    by (simp only: center_def radius_def eps1_def eps2_def simp_thms)
qed




text \<open>
  Claim C4.  Round trip: the readings that the strain-transformation formula gives for a
  strain state at 0, 45 and 90 degrees, fed to \<open>calculate_strains\<close>, give back that
  strain state (exactly, in exact arithmetic).
\<close>

theorem round_trip_0_45_90:
  "calculate_strains 0 45 90
     (strain_at (eps_x, eps_y, gamma_xy) (radians 0))
     (strain_at (eps_x, eps_y, gamma_xy) (radians 45))
     (strain_at (eps_x, eps_y, gamma_xy) (radians 90)) = Inr (eps_x, eps_y, gamma_xy) \<and>
   strain_at (eps_x, eps_y, gamma_xy) (radians 0) = eps_x \<and>
   strain_at (eps_x, eps_y, gamma_xy) (radians 45) = (eps_x + eps_y + gamma_xy) / 2 \<and>
   strain_at (eps_x, eps_y, gamma_xy) (radians 90) = eps_y"
proof -
  have v: "strain_at (eps_x, eps_y, gamma_xy) (radians 0) = eps_x"
    "strain_at (eps_x, eps_y, gamma_xy) (radians 45) = (eps_x + eps_y + gamma_xy) / 2"
    "strain_at (eps_x, eps_y, gamma_xy) (radians 90) = eps_y"
    by (simp_all add: strain_at_def radians_0 radians_45 radians_90 cos_45 sin_45
        power_divide add_divide_distrib)
  show ?thesis
    unfolding v by (simp add: calculate_strains_0_45_90 add_divide_distrib)
qed

text \<open>
  Claim C5, as amended.  For the angles 0, 45, 90 degrees and the readings 1000, 500, -200
  the solver returns \<open>eps_x = 1000\<close>, \<open>eps_y = -200\<close>, \<open>gamma_xy = 200\<close>; the analysis of
  that state gives the center 400, the radius \<open>sqrt 370000\<close> (608.28 to two decimals),
  the principal strains 1008.28 and -208.28 (to two decimals), and the principal angle
  \<open>degrees (0.5 * arctan2 200 1200)\<close>, which is 4.73 degrees to two decimals.
\<close>

theorem textbook_case:
  "calculate_strains 0 45 90 1000 500 (- 200) = Inr (1000, - 200, 200) \<and>
   center 1000 (- 200) = 400 \<and>
   radius 1000 (- 200) 200 = sqrt 370000 \<and>
   \<bar>radius 1000 (- 200) 200 - 608.28\<bar> < 0.005 \<and>
   \<bar>eps1 1000 (- 200) 200 - 1008.28\<bar> < 0.005 \<and>
   \<bar>eps2 1000 (- 200) 200 - (- 208.28)\<bar> < 0.005 \<and>
   theta_p_deg 1000 (- 200) 200 = degrees (0.5 * arctan2 200 1200) \<and>
   \<bar>theta_p_deg 1000 (- 200) 200 - 4.73\<bar> < 0.005"
proof -
  have s: "calculate_strains 0 45 90 1000 500 (- 200) = Inr (1000, - 200, 200)"
    by (simp add: calculate_strains_0_45_90)
  have c: "center 1000 (- 200) = 400" by (simp add: center_def)
  note r = radius_example
  have rb: "\<bar>radius 1000 (- 200) 200 - 608.28\<bar> < 0.005"
    unfolding r by (rule abs_diff_less [OF sqrt_370000(1) sqrt_370000(2)]) simp_all
  have e1: "\<bar>eps1 1000 (- 200) 200 - 1008.28\<bar> < 0.005"
  proof -
    have "1008.275 < 400 + sqrt 370000" "400 + sqrt 370000 < 1008.285"
      using sqrt_370000 by simp_all
    then show ?thesis
      unfolding eps1_def c r by (rule abs_diff_less) simp_all
  qed
  have e2: "\<bar>eps2 1000 (- 200) 200 - (- 208.28)\<bar> < 0.005"
  proof -
    have "- 208.285 < 400 - sqrt 370000" "400 - sqrt 370000 < - 208.275"
      using sqrt_370000 by simp_all
    then show ?thesis
      unfolding eps2_def c r by (rule abs_diff_less) simp_all
  qed
  have t: "theta_p_deg 1000 (- 200) 200 = degrees (0.5 * arctan2 200 1200)"
    by (simp add: theta_p_deg_def theta_p_rad_def)
  have tb: "\<bar>theta_p_deg 1000 (- 200) 200 - 4.73\<bar> < 0.005"
    unfolding theta_example
    by (rule abs_diff_less [OF theta_example_bounds(1) theta_example_bounds(2)]) simp_all
  from s c r rb e1 e2 t tb show ?thesis by (intro conjI)
qed

text \<open>
  Claim C5 as it is written gives 9.46 degrees for the principal angle.  That is the value
  of \<open>degrees (arctan2 200 1200)\<close>, without the factor 0.5 of the code; the angle the code
  returns is more than one degree away from it.
\<close>

theorem textbook_theta_counterexample:
  "\<not> \<bar>theta_p_deg 1000 (- 200) 200 - 9.46\<bar> < 1"
  unfolding theta_example by (rule abs_diff_not_less [OF theta_example_bounds(2)]) simp

text \<open>
  Claim C6, as amended.  For every strain state: \<open>eps1 \<ge> eps2\<close>; the radius is non-negative,
  and zero exactly when \<open>eps_x = eps_y\<close> and \<open>gamma_xy = 0\<close>; the center is the mean of the
  two principal strains; the principal angle lies between -90 and 90 degrees, both
  included.
\<close>

theorem analysis_invariants:
  "eps2 eps_x eps_y gamma_xy \<le> eps1 eps_x eps_y gamma_xy \<and>
   0 \<le> radius eps_x eps_y gamma_xy \<and>
   (radius eps_x eps_y gamma_xy = 0 \<longleftrightarrow> eps_x = eps_y \<and> gamma_xy = 0) \<and>
   center eps_x eps_y = (eps1 eps_x eps_y gamma_xy + eps2 eps_x eps_y gamma_xy) / 2 \<and>
   - 90 \<le> theta_p_deg eps_x eps_y gamma_xy \<and> theta_p_deg eps_x eps_y gamma_xy \<le> 90"
proof -
  have "eps2 eps_x eps_y gamma_xy \<le> eps1 eps_x eps_y gamma_xy"
    using radius_nonneg [of eps_x eps_y gamma_xy] by (simp add: eps1_def eps2_def)
  moreover have "center eps_x eps_y = (eps1 eps_x eps_y gamma_xy + eps2 eps_x eps_y gamma_xy) / 2"
    by (simp add: eps1_def eps2_def)
  moreover have "- 90 \<le> theta_p_deg eps_x eps_y gamma_xy"
    using theta_p_deg_range [of eps_x eps_y gamma_xy] by simp
  ultimately show ?thesis
    using radius_nonneg radius_zero_iff theta_p_deg_range by blast
qed

text \<open>
  Claim C6 as it is written excludes -90 degrees.  In double precision the angle of a
  point just below the negative x axis rounds to \<open>- NPY_PI\<close>, and the principal angle the
  script returns is exactly -90: here for \<open>eps_x = -200\<close>, \<open>eps_y = 1000\<close> and the shear
  \<open>gamma_xy = - 1 / 2 ^ 43\<close>, about \<open>-1.1e-13\<close>, the size of a rounding residue of the solver.
\<close>

theorem theta_p_deg_double_counterexample:
  "theta_p_deg_double (- 200) 1000 (- (1 / 2 ^ 43)) = - 90"
proof -
  have "fl (- NPY_PI / 2 * (8063664102031864 / 2 ^ 47)) = of_int (- 6333186975989760) / 2 ^ 46"
    by (rule fl_near) (simp_all add: NPY_PI_def abs_less_iff)
  also have "\<dots> = - 90" by simp
  finally show ?thesis
    by (simp only: theta_p_deg_double_def theta_p_rad_double_example np_degrees_def fl_rad2deg)
qed

text \<open>
  Claim C7.  Symmetry: when the coefficient matrix is non-singular, passing the three
  readings in reversed order (A and C exchanged) gives the same strain state.
\<close>

theorem calculate_strains_swap_A_C:
  assumes "\<not> singular (coeff_matrix theta_a theta_b theta_c)"
  shows "\<exists>s. calculate_strains theta_a theta_b theta_c eps_a eps_b eps_c = Inr s \<and>
             calculate_strains theta_c theta_b theta_a eps_c eps_b eps_a = Inr s"
proof -
  obtain s where s: "calculate_strains theta_a theta_b theta_c eps_a eps_b eps_c = Inr s"
    "strain_at s (radians theta_a) = eps_a" "strain_at s (radians theta_b) = eps_b"
    "strain_at s (radians theta_c) = eps_c"
    using calculate_strains_regular [OF assms] by blast
  have "\<not> singular (coeff_matrix theta_c theta_b theta_a)"
    using assms by (simp add: singular_swap13)
  then have "calculate_strains theta_c theta_b theta_a eps_c eps_b eps_a = Inr s"
    using s(4) s(3) s(2) by (rule calculate_strains_unique)
  with s(1) show ?thesis by blast
qed

text \<open>
  The textbook rosette, in both orders.
\<close>

theorem calculate_strains_swap_A_C_witness:
  "\<not> singular (coeff_matrix 0 45 90) \<and>
   calculate_strains 0 45 90 1000 500 (- 200) = Inr (1000, - 200, 200) \<and>
   calculate_strains 90 45 0 (- 200) 500 1000 = Inr (1000, - 200, 200)"
proof -
  have r: "\<not> singular (coeff_matrix 0 45 90)" by (rule regular_0_45_90)
  have v: "calculate_strains 0 45 90 1000 500 (- 200) = Inr (1000, - 200, 200)"
    by (simp add: calculate_strains_0_45_90)
  show ?thesis
    using calculate_strains_swap_A_C [OF r, of 1000 500 "- 200"] r v by auto
qed

text \<open>
  Claim C8.  Isotropic case: for \<open>eps_x = eps_y = 100\<close> and \<open>gamma_xy = 0\<close> the center is 100,
  the radius is 0, both principal strains are 100, and the principal angle is 0 degrees,
  the value of \<open>arctan2\<close> at the origin.
\<close>

theorem isotropic_case:
  "center 100 100 = 100 \<and> radius 100 100 0 = 0 \<and>
   eps1 100 100 0 = 100 \<and> eps2 100 100 0 = 100 \<and>
   arctan2 0 (100 - 100) = 0 \<and> theta_p_deg 100 100 0 = 0 \<and>
   snd (plot_mohrs_circle 100 100 0) = (100, 100, 0)"
  by (simp add: center_def radius_def eps1_def eps2_def arctan2_def theta_p_deg_def
      theta_p_rad_def degrees_def plot_mohrs_circle_def)

text \<open>
  Claim C9.  Adding 180 degrees to any one of the three angles leaves the coefficient
  matrix unchanged, so that, when the matrix is non-singular, \<open>calculate_strains\<close> returns
  the same strain state.
\<close>

theorem calculate_strains_period_180:
  assumes "\<not> singular (coeff_matrix theta_a theta_b theta_c)"
  shows "coeff_matrix (theta_a + 180) theta_b theta_c = coeff_matrix theta_a theta_b theta_c \<and>
    coeff_matrix theta_a (theta_b + 180) theta_c = coeff_matrix theta_a theta_b theta_c \<and>
    coeff_matrix theta_a theta_b (theta_c + 180) = coeff_matrix theta_a theta_b theta_c \<and>
    (\<exists>s. calculate_strains theta_a theta_b theta_c eps_a eps_b eps_c = Inr s \<and>
         calculate_strains (theta_a + 180) theta_b theta_c eps_a eps_b eps_c = Inr s \<and>
         calculate_strains theta_a (theta_b + 180) theta_c eps_a eps_b eps_c = Inr s \<and>
         calculate_strains theta_a theta_b (theta_c + 180) eps_a eps_b eps_c = Inr s)"
proof -
  have m: "coeff_matrix (theta_a + 180) theta_b theta_c = coeff_matrix theta_a theta_b theta_c"
    "coeff_matrix theta_a (theta_b + 180) theta_c = coeff_matrix theta_a theta_b theta_c"
    "coeff_matrix theta_a theta_b (theta_c + 180) = coeff_matrix theta_a theta_b theta_c"
    by (simp_all add: coeff_matrix_def coeff_row_180)
  have c: "calculate_strains (theta_a + 180) theta_b theta_c eps_a eps_b eps_c =
      calculate_strains theta_a theta_b theta_c eps_a eps_b eps_c"
    "calculate_strains theta_a (theta_b + 180) theta_c eps_a eps_b eps_c =
      calculate_strains theta_a theta_b theta_c eps_a eps_b eps_c"
    "calculate_strains theta_a theta_b (theta_c + 180) eps_a eps_b eps_c =
      calculate_strains theta_a theta_b theta_c eps_a eps_b eps_c"
    by (simp_all only: calculate_strains_def m)
  obtain s where "calculate_strains theta_a theta_b theta_c eps_a eps_b eps_c = Inr s"
    using calculate_strains_regular [OF assms] by blast
  then show ?thesis
    unfolding c m by blast
qed

text \<open>
  The textbook rosette with each angle shifted in turn.
\<close>

theorem calculate_strains_period_180_witness:
  "\<not> singular (coeff_matrix 0 45 90) \<and>
   calculate_strains 0 45 90 1000 500 (- 200) = Inr (1000, - 200, 200) \<and>
   calculate_strains (0 + 180) 45 90 1000 500 (- 200) = Inr (1000, - 200, 200) \<and>
   calculate_strains 0 (45 + 180) 90 1000 500 (- 200) = Inr (1000, - 200, 200) \<and>
   calculate_strains 0 45 (90 + 180) 1000 500 (- 200) = Inr (1000, - 200, 200)"
proof -
  have r: "\<not> singular (coeff_matrix 0 45 90)" by (rule regular_0_45_90)
  have v: "calculate_strains 0 45 90 1000 500 (- 200) = Inr (1000, - 200, 200)"
    by (simp add: calculate_strains_0_45_90)
  show ?thesis
    using calculate_strains_period_180 [OF r, of 1000 500 "- 200"] r v
    by (elim conjE exE) (simp only: sum.inject simp_thms)
qed

text \<open>
  Claim C10.  The two endpoints of the plotted segment, \<open>(eps_x, - gamma_xy / 2)\<close> and
  \<open>(eps_y, gamma_xy / 2)\<close>, lie on the plotted circle: each is at distance \<open>radius\<close> from
  the circle's center \<open>(center, 0)\<close>; and the segment has length twice the radius, so it
  is a diameter.
\<close>

theorem segment_is_diameter:
  "fst (segment (draw eps_x eps_y gamma_xy)) = (eps_x, - gamma_xy / 2) \<and>
   snd (segment (draw eps_x eps_y gamma_xy)) = (eps_y, gamma_xy / 2) \<and>
   circle_center (draw eps_x eps_y gamma_xy) = (center eps_x eps_y, 0) \<and>
   circle_radius (draw eps_x eps_y gamma_xy) = radius eps_x eps_y gamma_xy \<and>
   dist2 (fst (segment (draw eps_x eps_y gamma_xy))) (circle_center (draw eps_x eps_y gamma_xy))
     = circle_radius (draw eps_x eps_y gamma_xy) \<and>
   dist2 (snd (segment (draw eps_x eps_y gamma_xy))) (circle_center (draw eps_x eps_y gamma_xy))
     = circle_radius (draw eps_x eps_y gamma_xy) \<and>
   dist2 (fst (segment (draw eps_x eps_y gamma_xy))) (snd (segment (draw eps_x eps_y gamma_xy)))
     = 2 * circle_radius (draw eps_x eps_y gamma_xy)"
proof -
  have d: "segment (draw eps_x eps_y gamma_xy) = ((eps_x, - gamma_xy / 2), (eps_y, gamma_xy / 2))"
    "circle_center (draw eps_x eps_y gamma_xy) = (center eps_x eps_y, 0)"
    "circle_radius (draw eps_x eps_y gamma_xy) = radius eps_x eps_y gamma_xy"
    by (simp_all add: draw_def Let_def)
  have l: "dist2 (eps_x, - gamma_xy / 2) (eps_y, gamma_xy / 2) = 2 * radius eps_x eps_y gamma_xy"
    by (simp add: double_radius)
  show ?thesis
    unfolding d using endpoints_on_circle [where ex = eps_x and ey = eps_y and g = gamma_xy] l by simp
qed

end
